theory Spec2Isabelle
  imports Complex_Main "HOL-Library.Word"
begin

section \<open>Receipt processor: validation, scoring and the record store of server.go\<close>

text \<open>
  The development follows \<^verbatim>\<open>server.go\<close>: the field validators
  (\<^verbatim>\<open>UnmarshalJSON\<close> of Retailer, Date, Time, Amount and Description), the seven
  scoring rules of \<^verbatim>\<open>computeReceiptPoints\<close>, and the store \<^verbatim>\<open>xDB\<close> with
  \<^verbatim>\<open>writeReceipt\<close> and \<^verbatim>\<open>getReceiptPoints\<close>.

  Conventions of the embedding.
  \<^item> A Go string is its sequence of bytes, a \<^typ>\<open>string\<close>. The three regular expressions
    of the program admit bytes below 0x80 only, so every string that reaches the scoring
    rules through a validator is ASCII; there a rune is a byte, and the classifications of
    package \<^verbatim>\<open>unicode\<close> and \<^verbatim>\<open>strings.TrimSpace\<close> are modelled on that range.
  \<^item> \<^verbatim>\<open>int64\<close> is \<^typ>\<open>64 word\<close>: addition wraps around, \<^term>\<open>sint\<close> reads the value.
  \<^item> A finite \<^verbatim>\<open>float64\<close> is the rational number it denotes. Every operation that
    rounds (parsing a decimal, converting a constant, multiplying) rounds to the nearest
    double, ties to even, with the rounding written out in \<open>round64\<close>. The validator turns
    the overflow of \<^verbatim>\<open>strconv.ParseFloat\<close> into an error, so no infinity or NaN is
    ever stored in an Amount.
  \<^item> Every \<^verbatim>\<open>errors.New\<close> of the program is a constructor of \<open>error\<close>; a function
    returning \<^verbatim>\<open>(T, error)\<close> returns \<open>error + T\<close>.
  \<^item> The mutex of the store is not modelled: operations are taken one at a time.
\<close>

subsection \<open>Errors\<close>

datatype error =
    FieldMustBeQuotedString   \<comment> \<open>"Field must be a quoted string"\<close>
  | InvalidRetailerName       \<comment> \<open>"Invalid retailer name"\<close>
  | InvalidDateFormat         \<comment> \<open>"Invalid date format"\<close>
  | InvalidTimeFormat         \<comment> \<open>"Invalid time format"\<close>
  | InvalidAmount             \<comment> \<open>"Invalid amount"\<close>
  | AmountNotValidFloat       \<comment> \<open>"Amount is not a valid float"\<close>
  | InvalidItemDescription    \<comment> \<open>"Invalid item description"\<close>
  | ReceiptMalformed          \<comment> \<open>"Receipt with given ID was malformed"\<close>
  | NoReceiptExists           \<comment> \<open>"No receipt with given ID exists"\<close>

text \<open>The four kinds of failure that the specification names, and the kind of each error.\<close>

datatype error_kind = MalformedField | InvalidFormat | NotFound | Corrupt

fun kind :: "error \<Rightarrow> error_kind" where
  "kind FieldMustBeQuotedString = MalformedField"
| "kind InvalidRetailerName = InvalidFormat"
| "kind InvalidDateFormat = InvalidFormat"
| "kind InvalidTimeFormat = InvalidFormat"
| "kind InvalidAmount = InvalidFormat"
| "kind AmountNotValidFloat = InvalidFormat"
| "kind InvalidItemDescription = InvalidFormat"
| "kind ReceiptMalformed = Corrupt"
| "kind NoReceiptExists = NotFound"

subsection \<open>Bytes and character classes\<close>

definition byte :: "char \<Rightarrow> int" where
  "byte c = of_char c"

text \<open>The classes of Go's regular expressions: \<^verbatim>\<open>\d\<close> is 0-9, \<^verbatim>\<open>\w\<close> is
  0-9A-Za-z_, \<^verbatim>\<open>\s\<close> is tab, newline, form feed, carriage return and space.\<close>

definition re_d :: "char \<Rightarrow> bool" where
  "re_d c = (48 \<le> byte c \<and> byte c \<le> 57)"

definition re_w :: "char \<Rightarrow> bool" where
  "re_w c = (re_d c \<or> (65 \<le> byte c \<and> byte c \<le> 90) \<or> byte c = 95
             \<or> (97 \<le> byte c \<and> byte c \<le> 122))"

definition re_s :: "char \<Rightarrow> bool" where
  "re_s c = (byte c = 9 \<or> byte c = 10 \<or> byte c = 12 \<or> byte c = 13 \<or> byte c = 32)"

text \<open>\<^verbatim>\<open>unicode.IsLetter\<close> and \<^verbatim>\<open>unicode.IsDigit\<close> on the ASCII range.\<close>

definition unicode_IsLetter :: "char \<Rightarrow> bool" where
  "unicode_IsLetter c = ((65 \<le> byte c \<and> byte c \<le> 90) \<or> (97 \<le> byte c \<and> byte c \<le> 122))"

definition unicode_IsDigit :: "char \<Rightarrow> bool" where
  "unicode_IsDigit c = (48 \<le> byte c \<and> byte c \<le> 57)"

text \<open>The table \<^verbatim>\<open>asciiSpace\<close> of package strings: tab, newline, vertical tab, form
  feed, carriage return, space. \<^verbatim>\<open>strings.TrimSpace\<close> drops them at both ends.\<close>

definition asciiSpace :: "char \<Rightarrow> bool" where
  "asciiSpace c = ((9 \<le> byte c \<and> byte c \<le> 13) \<or> byte c = 32)"

definition strings_TrimSpace :: "string \<Rightarrow> string" where
  "strings_TrimSpace s = rev (dropWhile asciiSpace (rev (dropWhile asciiSpace s)))"

text \<open>The value of a string of decimal digits.\<close>

definition digitsVal :: "string \<Rightarrow> int" where
  "digitsVal s = foldl (\<lambda>a c. 10 * a + (byte c - 48)) 0 s"

subsection \<open>float64 and int64\<close>

type_synonym float64 = rat
type_synonym int64 = "64 word"

text \<open>The number of binary digits of a positive integer, and with it the binary exponent
  \<open>\<lfloor>log\<^sub>2 q\<rfloor>\<close> of a positive rational.\<close>

function bitLength :: "int \<Rightarrow> int" where
  "bitLength n = (if n \<le> 0 then 0 else 1 + bitLength (n div 2))"
  by pat_completeness auto
termination
  by (relation "measure nat") auto

declare bitLength.simps [simp del]

definition ilog2 :: "rat \<Rightarrow> int" where
  "ilog2 q = (if 1 \<le> q then bitLength \<lfloor>q\<rfloor> - 1 else - bitLength (\<lceil>1 / q\<rceil> - 1))"

definition pow2 :: "int \<Rightarrow> rat" where
  "pow2 e = (if 0 \<le> e then 2 ^ nat e else 1 / 2 ^ nat (- e))"

definition roundHalfEven :: "rat \<Rightarrow> int" where
  "roundHalfEven x =
     (let f = \<lfloor>x\<rfloor>; r = x - of_int f
      in if r < 1 / 2 then f else if 1 / 2 < r then f + 1
         else if even f then f else f + 1)"

text \<open>Rounding to the nearest double, ties to even: 53 significant bits, the unit in the
  last place never below \<open>2\<^sup>-\<^sup>1\<^sup>0\<^sup>7\<^sup>4\<close> (subnormal numbers). The result is not bounded
  above here; the one operation of the program that can overflow, ParseFloat, checks it.\<close>

definition round64 :: "rat \<Rightarrow> float64" where
  "round64 q =
     (if q = 0 then 0
      else let u = pow2 (max (ilog2 \<bar>q\<bar>) (- 1022) - 52)
           in sgn q * of_int (roundHalfEven (\<bar>q\<bar> / u)) * u)"

definition f64_mul :: "float64 \<Rightarrow> float64 \<Rightarrow> float64" where
  "f64_mul x y = round64 (x * y)"

definition toward_zero :: "rat \<Rightarrow> int" where
  "toward_zero x = (if 0 \<le> x then \<lfloor>x\<rfloor> else \<lceil>x\<rceil>)"

definition math_Trunc :: "float64 \<Rightarrow> float64" where
  "math_Trunc x = of_int (toward_zero x)"

definition math_Ceil :: "float64 \<Rightarrow> float64" where
  "math_Ceil x = of_int \<lceil>x\<rceil>"

definition math_Abs :: "float64 \<Rightarrow> float64" where
  "math_Abs x = \<bar>x\<bar>"

text \<open>\<^verbatim>\<open>math.Mod(x, y)\<close> is the exact remainder of the division truncated towards zero;
  it has the sign of \<open>x\<close> and needs no rounding.\<close>

definition math_Mod :: "float64 \<Rightarrow> float64 \<Rightarrow> float64" where
  "math_Mod x y = x - y * of_int (toward_zero (x / y))"

text \<open>The conversion \<^verbatim>\<open>int64(x)\<close> discards the fraction. Where the result does not fit,
  Go leaves the value to the implementation: it is the parameter \<open>oor\<close>.\<close>

definition int64_of_float64 :: "(float64 \<Rightarrow> int64) \<Rightarrow> float64 \<Rightarrow> int64" where
  "int64_of_float64 oor x =
     (let t = toward_zero x
      in if - (2 ^ 63) \<le> t \<and> t < 2 ^ 63 then word_of_int t else oor x)"

text \<open>\<^verbatim>\<open>strconv.ParseFloat(s, 64)\<close> on the decimal strings that reach it, digits with an
  optional fraction: the nearest double, or an error (\<open>None\<close>) when that is beyond the
  largest double. Any other string is a syntax error here.\<close>

definition strconv_ParseFloat :: "string \<Rightarrow> float64 option" where
  "strconv_ParseFloat s =
     (let ip = takeWhile re_d s; rest = dropWhile re_d s;
          fp = (if rest = [] then [] else tl rest)
      in if (rest = [] \<or> hd rest = CHR ''.'') \<and> list_all re_d fp \<and> ip @ fp \<noteq> []
         then let v = round64 (of_int (digitsVal (ip @ fp)) / 10 ^ length fp)
              in if v < 2 ^ 1024 then Some v else None
         else None)"

subsection \<open>time.Time and the two layouts the program parses\<close>

record time_Time =
  Year :: int
  Month :: nat
  Day :: nat
  Hour :: nat
  Minute :: nat

definition daysIn :: "nat \<Rightarrow> int \<Rightarrow> nat" where
  "daysIn m y =
     (if m = 2 then (if y mod 4 = 0 \<and> (y mod 100 \<noteq> 0 \<or> y mod 400 = 0) then 29 else 28)
      else if m = 4 \<or> m = 6 \<or> m = 9 \<or> m = 11 then 30 else 31)"

text \<open>\<^verbatim>\<open>time.Parse("2006-01-02", s)\<close>: four digits, a hyphen, two digits, a hyphen, two
  digits and nothing else; the month in 1..12 and the day within the month.\<close>

definition time_Parse_date :: "string \<Rightarrow> time_Time option" where
  "time_Parse_date s =
     (if length s = 10 \<and> list_all re_d (take 4 s) \<and> s ! 4 = CHR ''-''
         \<and> list_all re_d (take 2 (drop 5 s)) \<and> s ! 7 = CHR ''-''
         \<and> list_all re_d (drop 8 s)
      then let y = digitsVal (take 4 s); m = nat (digitsVal (take 2 (drop 5 s)));
               d = nat (digitsVal (drop 8 s))
           in if 1 \<le> m \<and> m \<le> 12 \<and> 1 \<le> d \<and> d \<le> daysIn m y
              then Some \<lparr>Year = y, Month = m, Day = d, Hour = 0, Minute = 0\<rparr>
              else None
      else None)"

text \<open>\<^verbatim>\<open>time.Parse("15:04", s)\<close>: an hour of one or two digits (two when the second
  byte is a digit) below 24, a colon, a minute of two digits below 60 and nothing else.
  The date of the result is January 1 of year 0.\<close>

definition time_Parse_clock :: "string \<Rightarrow> time_Time option" where
  "time_Parse_clock s =
     (let n = (if 2 \<le> length s \<and> re_d (s ! 0) \<and> re_d (s ! 1) then 2
               else if 1 \<le> length s \<and> re_d (s ! 0) then 1 else 0)
      in if 0 < n \<and> length s = n + 3 \<and> s ! n = CHR '':''
            \<and> re_d (s ! (n + 1)) \<and> re_d (s ! (n + 2))
         then let h = nat (digitsVal (take n s)); mi = nat (digitsVal (drop (n + 1) s))
              in if h < 24 \<and> mi < 60
                 then Some \<lparr>Year = 0, Month = 1, Day = 1, Hour = h, Minute = mi\<rparr>
                 else None
         else None)"

subsection \<open>The validators\<close>

definition isQuotedString :: "string \<Rightarrow> bool" where
  "isQuotedString s =
     (length s \<ge> 2 \<and> s ! 0 = CHR 0x22 \<and> s ! (length s - 1) = CHR 0x22)"

definition obtainQuotedString :: "string \<Rightarrow> error + string" where
  "obtainQuotedString str =
     (if \<not> isQuotedString str then Inl FieldMustBeQuotedString
      else Inr (take (length str - 2) (drop 1 str)))"

text \<open>\<^verbatim>\<open>^[\w\s&\-]+$\<close>, \<^verbatim>\<open>^[\w\s\-]+$\<close> and \<^verbatim>\<open>^\d+\.\d{2}$\<close>. Without the
  multi-line flag \<^verbatim>\<open>$\<close> is the end of the text.\<close>

definition retailerRegex_MatchString :: "string \<Rightarrow> bool" where
  "retailerRegex_MatchString s =
     (s \<noteq> [] \<and> list_all (\<lambda>c. re_w c \<or> re_s c \<or> c = CHR ''&'' \<or> c = CHR ''-'') s)"

definition descriptionRegex_MatchString :: "string \<Rightarrow> bool" where
  "descriptionRegex_MatchString s =
     (s \<noteq> [] \<and> list_all (\<lambda>c. re_w c \<or> re_s c \<or> c = CHR ''-'') s)"

definition twoDecimalFloatRegex_MatchString :: "string \<Rightarrow> bool" where
  "twoDecimalFloatRegex_MatchString s =
     (let n = length s
      in 4 \<le> n \<and> list_all re_d (take (n - 3) s) \<and> s ! (n - 3) = CHR ''.''
         \<and> re_d (s ! (n - 2)) \<and> re_d (s ! (n - 1)))"

type_synonym Retailer = string
type_synonym Date = time_Time
type_synonym Time = time_Time
type_synonym Amount = float64
type_synonym Description = string

definition Retailer_UnmarshalJSON :: "string \<Rightarrow> error + Retailer" where
  "Retailer_UnmarshalJSON data =
     (case obtainQuotedString data of
        Inl err \<Rightarrow> Inl err
      | Inr str \<Rightarrow>
          if \<not> retailerRegex_MatchString str then Inl InvalidRetailerName
          else Inr str)"

definition Date_UnmarshalJSON :: "string \<Rightarrow> error + Date" where
  "Date_UnmarshalJSON data =
     (case obtainQuotedString data of
        Inl err \<Rightarrow> Inl err
      | Inr str \<Rightarrow>
          (case time_Parse_date str of
             None \<Rightarrow> Inl InvalidDateFormat
           | Some parsedDate \<Rightarrow> Inr parsedDate))"

definition Time_UnmarshalJSON :: "string \<Rightarrow> error + Time" where
  "Time_UnmarshalJSON data =
     (case obtainQuotedString data of
        Inl err \<Rightarrow> Inl err
      | Inr str \<Rightarrow>
          (case time_Parse_clock str of
             None \<Rightarrow> Inl InvalidTimeFormat
           | Some parsedTime \<Rightarrow> Inr parsedTime))"

definition Amount_UnmarshalJSON :: "string \<Rightarrow> error + Amount" where
  "Amount_UnmarshalJSON data =
     (case obtainQuotedString data of
        Inl err \<Rightarrow> Inl err
      | Inr str \<Rightarrow>
          if \<not> twoDecimalFloatRegex_MatchString str then Inl InvalidAmount
          else (case strconv_ParseFloat str of
                  None \<Rightarrow> Inl AmountNotValidFloat
                | Some v \<Rightarrow> Inr v))"

definition Description_UnmarshalJSON :: "string \<Rightarrow> error + Description" where
  "Description_UnmarshalJSON data =
     (case obtainQuotedString data of
        Inl err \<Rightarrow> Inl err
      | Inr str \<Rightarrow>
          if \<not> descriptionRegex_MatchString str then Inl InvalidItemDescription
          else Inr str)"

subsection \<open>Receipts and the scoring rules\<close>

record Item =
  Description :: Description
  Price :: Amount

record Receipt =
  Retailer :: Retailer
  PurchaseDate :: Date
  PurchaseTime :: Time
  Items :: "Item list"
  Total :: Amount

definition alphanumericRetailerPoints :: "Receipt \<Rightarrow> int64" where
  "alphanumericRetailerPoints r =
     fold (\<lambda>char points.
             if unicode_IsLetter char \<or> unicode_IsDigit char then points + 1 else points)
          (Retailer r) 0"

definition totalRoundDollarAmountPoints :: "Receipt \<Rightarrow> int64" where
  "totalRoundDollarAmountPoints r =
     (if Total r = math_Trunc (Total r) then 50 else 0)"

text \<open>The constants \<^verbatim>\<open>0.25\<close>, \<^verbatim>\<open>1e-4\<close> and \<^verbatim>\<open>0.2\<close> are converted to float64
  where they meet one: a quarter is a double, the other two are rounded.\<close>

definition totalMultipleOf25CentsPoints :: "Receipt \<Rightarrow> int64" where
  "totalMultipleOf25CentsPoints r =
     (if math_Abs (math_Mod (Total r) (1 / 4)) < round64 (1 / 10000) then 25 else 0)"

definition every2ItemsPoints :: "Receipt \<Rightarrow> int64" where
  "every2ItemsPoints r = word_of_nat (5 * (length (Items r) div 2))"

definition itemDescriptionLengthsPoints :: "(float64 \<Rightarrow> int64) \<Rightarrow> Receipt \<Rightarrow> int64" where
  "itemDescriptionLengthsPoints oor r =
     fold (\<lambda>item points.
             let trimmedDescription = strings_TrimSpace (Description item)
             in if length trimmedDescription mod 3 = 0
                then points
                     + int64_of_float64 oor (math_Ceil (f64_mul (Price item) (round64 (1 / 5))))
                else points)
          (Items r) 0"

definition purchaseDayOddPoints :: "Receipt \<Rightarrow> int64" where
  "purchaseDayOddPoints r = (if Day (PurchaseDate r) mod 2 = 1 then 6 else 0)"

definition purchaseTimeBetween2And4Points :: "Receipt \<Rightarrow> int64" where
  "purchaseTimeBetween2And4Points r =
     (let purchaseHour = Hour (PurchaseTime r)
      in if purchaseHour \<ge> 14 \<and> purchaseHour < 16 then 10 else 0)"

definition computeReceiptPoints :: "(float64 \<Rightarrow> int64) \<Rightarrow> Receipt \<Rightarrow> int64" where
  "computeReceiptPoints oor r =
     alphanumericRetailerPoints r +
     totalRoundDollarAmountPoints r +
     totalMultipleOf25CentsPoints r +
     every2ItemsPoints r +
     itemDescriptionLengthsPoints oor r +
     purchaseDayOddPoints r +
     purchaseTimeBetween2And4Points r"

subsection \<open>The store\<close>

record ReceiptRow =
  Receipt :: Receipt
  ReceiptId :: string
  Points :: int64

text \<open>The table holds values of type \<^verbatim>\<open>any\<close>: a ReceiptRow, or a value of some other
  dynamic type, on which the type assertion of the lookup fails.\<close>

datatype any = ReceiptRowValue ReceiptRow | OtherValue string

record xDB =
  Data :: "string \<rightharpoonup> any"

definition NewXDB :: xDB where
  "NewXDB = \<lparr>Data = Map.empty\<rparr>"

definition ReceiptTableName :: string where
  "ReceiptTableName = ''receipt''"

text \<open>\<^verbatim>\<open>uuid.NewString()\<close> is the argument \<open>receiptId\<close>: the identifier that the
  generator hands out for this call.\<close>

definition writeReceipt ::
  "(float64 \<Rightarrow> int64) \<Rightarrow> xDB \<Rightarrow> string \<Rightarrow> Receipt \<Rightarrow> xDB \<times> (error + string)" where
  "writeReceipt oor db receiptId r =
     (let row = \<lparr>Receipt = r, ReceiptId = receiptId, Points = computeReceiptPoints oor r\<rparr>
      in (db\<lparr>Data := (Data db)(ReceiptTableName @ ''.'' @ receiptId \<mapsto> ReceiptRowValue row)\<rparr>,
          Inr receiptId))"

definition getReceiptPoints :: "xDB \<Rightarrow> string \<Rightarrow> error + int64" where
  "getReceiptPoints db receiptId =
     (let key = ReceiptTableName @ ''.'' @ receiptId
      in case Data db key of
           Some v \<Rightarrow>
             (case v of
                ReceiptRowValue receiptRow \<Rightarrow> Inr (Points receiptRow)
              | OtherValue _ \<Rightarrow> Inl ReceiptMalformed)
         | None \<Rightarrow> Inl NoReceiptExists)"

text \<open>A run of the store: the inserts of a list of (identifier, receipt) pairs, in order.\<close>

definition insertAll :: "(float64 \<Rightarrow> int64) \<Rightarrow> xDB \<Rightarrow> (string \<times> Receipt) list \<Rightarrow> xDB" where
  "insertAll oor db ops = foldl (\<lambda>d (u, r). fst (writeReceipt oor d u r)) db ops"

subsection \<open>Notions used to state the properties\<close>

text \<open>The JSON text of a string that needs no escape: the bytes between double quotes.\<close>

definition quote :: "string \<Rightarrow> string" where
  "quote s = CHR 0x22 # s @ [CHR 0x22]"

text \<open>The form YYYY-MM-DD, as the specification words it.\<close>

definition isYYYYMMDD :: "string \<Rightarrow> bool" where
  "isYYYYMMDD s =
     (length s = 10 \<and> re_d (s ! 0) \<and> re_d (s ! 1) \<and> re_d (s ! 2) \<and> re_d (s ! 3)
      \<and> s ! 4 = CHR ''-'' \<and> re_d (s ! 5) \<and> re_d (s ! 6)
      \<and> s ! 7 = CHR ''-'' \<and> re_d (s ! 8) \<and> re_d (s ! 9))"

text \<open>A validly-constructed receipt: every field is the result of its validator on some
  input.\<close>

definition valid_Item :: "Item \<Rightarrow> bool" where
  "valid_Item item =
     ((\<exists>d. Description_UnmarshalJSON d = Inr (Description item))
      \<and> (\<exists>d. Amount_UnmarshalJSON d = Inr (Price item)))"

definition valid_Receipt :: "Receipt \<Rightarrow> bool" where
  "valid_Receipt r =
     ((\<exists>d. Retailer_UnmarshalJSON d = Inr (Retailer r))
      \<and> (\<exists>d. Date_UnmarshalJSON d = Inr (PurchaseDate r))
      \<and> (\<exists>d. Time_UnmarshalJSON d = Inr (PurchaseTime r))
      \<and> list_all valid_Item (Items r)
      \<and> (\<exists>d. Amount_UnmarshalJSON d = Inr (Total r)))"

text \<open>The contribution of one item to the description-length rule: as the loop body
  computes it in int64, and as the integer that the specification's table describes.\<close>

definition itemPoints :: "(float64 \<Rightarrow> int64) \<Rightarrow> Item \<Rightarrow> int64" where
  "itemPoints oor item =
     (if length (strings_TrimSpace (Description item)) mod 3 = 0
      then int64_of_float64 oor (math_Ceil (f64_mul (Price item) (round64 (1 / 5)))) else 0)"

definition itemPointsInt :: "Item \<Rightarrow> int" where
  "itemPointsInt item =
     (if length (strings_TrimSpace (Description item)) mod 3 = 0
      then \<lceil>f64_mul (Price item) (round64 (1 / 5))\<rceil> else 0)"

text \<open>The score of the specification's table of seven rules, as an unbounded integer.\<close>

definition specScore :: "Receipt \<Rightarrow> int" where
  "specScore r =
     int (length (filter (\<lambda>c. unicode_IsLetter c \<or> unicode_IsDigit c) (Retailer r)))
     + (if Total r = of_int \<lfloor>Total r\<rfloor> then 50 else 0)
     + (if \<bar>math_Mod (Total r) (1 / 4)\<bar> < round64 (1 / 10000) then 25 else 0)
     + 5 * int (length (Items r) div 2)
     + (\<Sum>item\<leftarrow>Items r. itemPointsInt item)
     + (if odd (Day (PurchaseDate r)) then 6 else 0)
     + (if 14 \<le> Hour (PurchaseTime r) \<and> Hour (PurchaseTime r) < 16 then 10 else 0)"

text \<open>A stored value is well formed when it is a ReceiptRow that holds the score of its
  receipt.\<close>

definition wellFormed :: "(float64 \<Rightarrow> int64) \<Rightarrow> any \<Rightarrow> bool" where
  "wellFormed oor v =
     (case v of
        ReceiptRowValue row \<Rightarrow> Points row = computeReceiptPoints oor (Receipt row)
      | OtherValue _ \<Rightarrow> False)"

text \<open>The receipt of the specification's first testable property: retailer Target, two
  items, total 35.35, bought on 2022-01-01 at 13:01. The amounts are the doubles nearest to
  6.49, 12.25 and 35.35.\<close>

definition exampleReceipt :: Receipt where
  "exampleReceipt =
     \<lparr>Retailer = ''Target'',
      PurchaseDate = \<lparr>Year = 2022, Month = 1, Day = 1, Hour = 0, Minute = 0\<rparr>,
      PurchaseTime = \<lparr>Year = 0, Month = 1, Day = 1, Hour = 13, Minute = 1\<rparr>,
      Items = [\<lparr>Description = ''Mountain Dew 12PK'', Price = round64 (649 / 100)\<rparr>,
               \<lparr>Description = ''Emils Cheese Pizza'', Price = 49 / 4\<rparr>],
      Total = round64 (3535 / 100)\<rparr>"

text \<open>A receipt with two items of price 40000000000000000000.00 each; every field is the
  result of its validator (lemma \<open>valid_overflowReceipt\<close>).\<close>

definition overflowReceipt :: Receipt where
  "overflowReceipt =
     \<lparr>Retailer = ''A'',
      PurchaseDate = \<lparr>Year = 2022, Month = 1, Day = 2, Hour = 0, Minute = 0\<rparr>,
      PurchaseTime = \<lparr>Year = 0, Month = 1, Day = 1, Hour = 13, Minute = 1\<rparr>,
      Items = [\<lparr>Description = ''abc'', Price = 40000000000000000000\<rparr>,
               \<lparr>Description = ''abc'', Price = 40000000000000000000\<rparr>],
      Total = 80000000000000000000\<rparr>"

section \<open>The rounding of float64\<close>

text \<open>Three facts that tie \<open>round64\<close> to the format: \<open>ilog2\<close> is the binary exponent,
  the result is within half a unit in the last place of the argument, and in the normal
  range the significand has 53 bits.\<close>

lemma pow2_pos: "0 < pow2 e"
  by (simp add: pow2_def)

lemma bitLength_nonneg: "0 \<le> bitLength n"
proof (induction n rule: bitLength.induct)
  case (1 n)
  then show ?case by (simp add: bitLength.simps [of n])
qed

lemma bitLength_pos: "0 < n \<Longrightarrow> 0 < bitLength n"
  using bitLength_nonneg [of "n div 2"] by (simp add: bitLength.simps [of n])

lemma bitLength_bounds:
  "0 < n \<Longrightarrow> 2 ^ nat (bitLength n - 1) \<le> n \<and> n < 2 ^ nat (bitLength n)"
proof (induction n rule: bitLength.induct)
  case (1 n)
  show ?case
  proof (cases "n = 1")
    case True
    then show ?thesis by (simp add: bitLength.simps [of 1] bitLength.simps [of 0])
  next
    case False
    with "1.prems" have h: "0 < n div 2" by simp
    with "1.IH" "1.prems" have IH: "2 ^ nat (bitLength (n div 2) - 1) \<le> n div 2"
      "n div 2 < 2 ^ nat (bitLength (n div 2))" by simp_all
    have b: "bitLength n = 1 + bitLength (n div 2)"
      using "1.prems" by (simp add: bitLength.simps [of n])
    have p: "0 < bitLength (n div 2)" using h by (rule bitLength_pos)
    then have e1: "nat (bitLength n - 1) = Suc (nat (bitLength (n div 2) - 1))"
      and e2: "nat (bitLength n) = Suc (nat (bitLength (n div 2)))"
      using b by simp_all
    from IH show ?thesis unfolding e1 e2 by simp linarith
  qed
qed

lemma ilog2_bounds:
  assumes "0 < q"
  shows "pow2 (ilog2 q) \<le> q \<and> q < pow2 (ilog2 q + 1)"
proof (cases "1 \<le> q")
  case True
  let ?n = "\<lfloor>q\<rfloor>"
  let ?b = "bitLength ?n"
  from True have n: "0 < ?n" by simp
  from bitLength_bounds [OF n] have lo: "2 ^ nat (?b - 1) \<le> ?n" and hi: "?n < 2 ^ nat ?b"
    by simp_all
  have bp: "0 < ?b" using n by (rule bitLength_pos)
  from lo have "(of_int (2 ^ nat (?b - 1)) :: rat) \<le> of_int ?n" by (simp only: of_int_le_iff)
  also have "\<dots> \<le> q" by simp
  finally have 1: "(2 :: rat) ^ nat (?b - 1) \<le> q" by simp
  from hi have "?n + 1 \<le> 2 ^ nat ?b" by simp
  then have "(of_int (?n + 1) :: rat) \<le> of_int (2 ^ nat ?b)" by (simp only: of_int_le_iff)
  moreover have "q < of_int (?n + 1)" by linarith
  ultimately have 2: "q < (2 :: rat) ^ nat ?b" by simp
  from True bp 1 2 show ?thesis by (simp add: ilog2_def pow2_def)
next
  case False
  let ?m = "\<lceil>1 / q\<rceil> - 1"
  let ?b = "bitLength ?m"
  from False assms have "1 < 1 / q" by simp
  then have m: "0 < ?m" by linarith
  from bitLength_bounds [OF m] have lo: "2 ^ nat (?b - 1) \<le> ?m" and hi: "?m < 2 ^ nat ?b"
    by simp_all
  have bp: "0 < ?b" using m by (rule bitLength_pos)
  have "1 / q \<le> of_int (?m + 1)" by simp
  also from hi have "?m + 1 \<le> 2 ^ nat ?b" by simp
  then have "(of_int (?m + 1) :: rat) \<le> of_int (2 ^ nat ?b)" by (simp only: of_int_le_iff)
  finally have "1 / q \<le> (2 :: rat) ^ nat ?b" by simp
  then have 1: "1 / 2 ^ nat ?b \<le> q"
    using assms by (simp add: field_simps)
  have "(of_int (2 ^ nat (?b - 1)) :: rat) \<le> of_int ?m" using lo by (simp only: of_int_le_iff)
  also have "of_int ?m < 1 / q" by linarith
  finally have "(2 :: rat) ^ nat (?b - 1) < 1 / q" by simp
  then have 2: "q < 1 / 2 ^ nat (?b - 1)"
    using assms by (simp add: field_simps)
  have e: "nat (?b - 1) = nat ?b - 1" by simp
  show ?thesis
  proof (cases "?b = 1")
    case True
    with False 1 2 show ?thesis by (simp add: ilog2_def pow2_def)
  next
    case b: False
    with bp have "1 < ?b" by simp
    then have "nat (- (1 - ?b)) = nat (?b - 1)" by simp
    with False bp 1 2 \<open>1 < ?b\<close> show ?thesis by (simp add: ilog2_def pow2_def)
  qed
qed

lemma roundHalfEven_error: "\<bar>of_int (roundHalfEven x) - x\<bar> \<le> 1 / 2"
proof -
  have "of_int \<lfloor>x\<rfloor> \<le> x" "x < of_int \<lfloor>x\<rfloor> + 1" by linarith+
  then show ?thesis
    by (auto simp: roundHalfEven_def Let_def abs_le_iff)
qed

text \<open>The result of round64 lies within half a unit in the last place of its argument.\<close>

lemma round64_error:
  "\<bar>round64 q - q\<bar> \<le> pow2 (max (ilog2 \<bar>q\<bar>) (- 1022) - 52) / 2"
proof (cases "q = 0")
  case True
  then show ?thesis using pow2_pos [of "max (ilog2 \<bar>q\<bar>) (- 1022) - 52"] by (simp add: round64_def)
next
  case False
  let ?u = "pow2 (max (ilog2 \<bar>q\<bar>) (- 1022) - 52)"
  have u: "0 < ?u" by (rule pow2_pos)
  let ?m = "roundHalfEven (\<bar>q\<bar> / ?u)"
  have r: "round64 q = sgn q * (of_int ?m * ?u)"
    using False by (simp add: round64_def Let_def mult.assoc)
  have "sgn q * (of_int ?m * ?u - \<bar>q\<bar>) = round64 q - q"
    by (simp only: r right_diff_distrib sgn_mult_abs)
  then have "\<bar>round64 q - q\<bar> = \<bar>sgn q\<bar> * \<bar>of_int ?m * ?u - \<bar>q\<bar>\<bar>"
    by (simp only: abs_mult [symmetric])
  also have "\<dots> = \<bar>of_int ?m * ?u - \<bar>q\<bar>\<bar>"
    using False by (simp only: abs_sgn_eq if_False mult_1)
  also have "of_int ?m * ?u - \<bar>q\<bar> = (of_int ?m - \<bar>q\<bar> / ?u) * ?u"
    using u by (simp add: field_simps)
  also have "\<bar>\<dots>\<bar> = \<bar>of_int ?m - \<bar>q\<bar> / ?u\<bar> * ?u"
    using u by (simp add: abs_mult)
  also have "\<dots> \<le> (1 / 2) * ?u"
    using roundHalfEven_error [of "\<bar>q\<bar> / ?u"] u by (intro mult_right_mono) simp_all
  finally show ?thesis by simp
qed


lemma pow2_powi: "pow2 e = 2 powi e"
  by (simp add: pow2_def power_int_def inverse_eq_divide power_one_over)

lemma pow2_add: "pow2 (a + b) = pow2 a * pow2 b"
  by (simp add: pow2_powi power_int_add)

text \<open>For an argument in the normal range the significand has 53 bits.\<close>

lemma round64_significand:
  assumes "0 < q" and "- 1022 \<le> ilog2 q"
  shows "2 ^ 52 \<le> roundHalfEven (q / pow2 (ilog2 q - 52))
       \<and> roundHalfEven (q / pow2 (ilog2 q - 52)) \<le> 2 ^ 53"
proof -
  let ?e = "ilog2 q"
  let ?u = "pow2 (?e - 52)"
  let ?x = "q / ?u"
  have u: "0 < ?u" by (rule pow2_pos)
  have "pow2 ?e = pow2 (?e - 52) * pow2 52" using pow2_add [of "?e - 52" 52] by simp
  then have e: "pow2 ?e = ?u * 2 ^ 52" by (simp add: pow2_def)
  have "pow2 (?e + 1) = pow2 ?e * pow2 1" by (rule pow2_add)
  with e have e1: "pow2 (?e + 1) = ?u * 2 ^ 53" by (simp add: pow2_def)
  from ilog2_bounds [OF assms(1)] e e1 have "?u * 2 ^ 52 \<le> q" "q < ?u * 2 ^ 53" by simp_all
  with u have lo: "2 ^ 52 \<le> ?x" and hi: "?x < 2 ^ 53"
    by (simp_all add: field_simps)
  from lo have "(of_int (2 ^ 52) :: rat) \<le> ?x" by simp
  then have flo: "2 ^ 52 \<le> \<lfloor>?x\<rfloor>" by (simp only: le_floor_iff)
  from hi have "?x < (of_int (2 ^ 53) :: rat)" by simp
  then have fhi: "\<lfloor>?x\<rfloor> < 2 ^ 53" by (simp only: floor_less_iff)
  from flo fhi show ?thesis
    by (auto simp: roundHalfEven_def Let_def)
qed

section \<open>The record store\<close>

lemma key_inj [simp]:
  "(ReceiptTableName @ ''.'' @ a = ReceiptTableName @ ''.'' @ b) = (a = b)"
  by simp

lemma Data_writeReceipt:
  "Data (fst (writeReceipt oor db u r)) =
   (Data db)(ReceiptTableName @ ''.'' @ u \<mapsto>
      ReceiptRowValue \<lparr>Receipt = r, ReceiptId = u, Points = computeReceiptPoints oor r\<rparr>)"
  by (simp add: writeReceipt_def)

lemma insertAll_Nil [simp]: "insertAll oor db [] = db"
  by (simp add: insertAll_def)

lemma insertAll_Cons [simp]:
  "insertAll oor db ((u, r) # ops) = insertAll oor (fst (writeReceipt oor db u r)) ops"
  by (simp add: insertAll_def)

text \<open>An insert touches the key of its own identifier only.\<close>

lemma Data_insertAll_other:
  "u \<notin> fst ` set ops \<Longrightarrow>
   Data (insertAll oor db ops) (ReceiptTableName @ ''.'' @ u)
   = Data db (ReceiptTableName @ ''.'' @ u)"
proof (induction ops arbitrary: db)
  case Nil
  then show ?case by simp
next
  case (Cons op ops)
  obtain v r where op: "op = (v, r)" by (cases op)
  from Cons.prems op have "u \<noteq> v" and "u \<notin> fst ` set ops" by auto
  then show ?case
    using Cons.IH [of "fst (writeReceipt oor db v r)"] op
    by (simp add: Data_writeReceipt)
qed

text \<open>Inserts keep every stored value well formed.\<close>

lemma ran_insertAll:
  "ran (Data db) \<subseteq> Collect (wellFormed oor) \<Longrightarrow>
   ran (Data (insertAll oor db ops)) \<subseteq> Collect (wellFormed oor)"
proof (induction ops arbitrary: db)
  case Nil
  then show ?case by simp
next
  case (Cons op ops)
  obtain v r where op: "op = (v, r)" by (cases op)
  have "ran (Data (fst (writeReceipt oor db v r))) \<subseteq> Collect (wellFormed oor)"
    using Cons.prems
    by (auto simp: Data_writeReceipt ran_def wellFormed_def split: if_splits)
  then show ?case
    using Cons.IH op by simp
qed

text \<open>
  \<^bold>\<open>C1\<close>. Submitting a receipt returns an identifier under which the lookup succeeds
  with exactly the score that \<open>computeReceiptPoints\<close> gives the receipt: at once, and
  after any later inserts under other identifiers. It holds for every receipt and every
  store, so for every validly-constructed receipt.
\<close>

theorem writeReceipt_then_getReceiptPoints:
  "(\<exists>id. snd (writeReceipt oor db u r) = Inr id
      \<and> getReceiptPoints (fst (writeReceipt oor db u r)) id = Inr (computeReceiptPoints oor r))
   \<and> (u \<notin> fst ` set ops \<longrightarrow>
        getReceiptPoints (insertAll oor (fst (writeReceipt oor db u r)) ops) u
          = Inr (computeReceiptPoints oor r))"
proof -
  have 1: "snd (writeReceipt oor db u r) = Inr u"
    by (simp add: writeReceipt_def)
  have 2: "getReceiptPoints (fst (writeReceipt oor db u r)) u = Inr (computeReceiptPoints oor r)"
    by (simp add: getReceiptPoints_def Data_writeReceipt)
  have 3: "getReceiptPoints (insertAll oor (fst (writeReceipt oor db u r)) ops) u
          = Inr (computeReceiptPoints oor r)" if "u \<notin> fst ` set ops"
    using Data_insertAll_other [OF that, of oor "fst (writeReceipt oor db u r)"]
    by (simp add: getReceiptPoints_def Data_writeReceipt)
  from 1 2 3 show ?thesis by blast
qed

theorem writeReceipt_then_getReceiptPoints_witness:
  "''a'' \<notin> fst ` set [(''b'', exampleReceipt)]
   \<and> getReceiptPoints
        (insertAll (\<lambda>_. 0) (fst (writeReceipt (\<lambda>_. 0) NewXDB ''a'' exampleReceipt))
           [(''b'', exampleReceipt)]) ''a''
      = Inr (computeReceiptPoints (\<lambda>_. 0) exampleReceipt)"
  using writeReceipt_then_getReceiptPoints
    [of "\<lambda>_. 0" NewXDB "''a''" exampleReceipt "[(''b'', exampleReceipt)]"]
  by simp

text \<open>
  \<^bold>\<open>C6\<close>. A lookup whose key holds no record fails with
  "No receipt with given ID exists" (kind NotFound), whatever the store; in a store built
  from the empty one by inserts that is every identifier no insert returned, and a lookup
  succeeds only for an identifier that an insert returned. The result is an error or a
  point value, never both.
\<close>

theorem getReceiptPoints_unknown_id:
  "(Data db (ReceiptTableName @ ''.'' @ k) = None \<longrightarrow>
       getReceiptPoints db k = Inl NoReceiptExists \<and> kind NoReceiptExists = NotFound)
   \<and> (k \<notin> fst ` set ops \<longrightarrow> getReceiptPoints (insertAll oor NewXDB ops) k = Inl NoReceiptExists)
   \<and> (getReceiptPoints (insertAll oor NewXDB ops) k' = Inr p \<longrightarrow> k' \<in> fst ` set ops)"
proof -
  have 1: "getReceiptPoints db' i = Inl NoReceiptExists"
    if "Data db' (ReceiptTableName @ ''.'' @ i) = None" for db' i
    using that by (simp add: getReceiptPoints_def)
  have 2: "Data (insertAll oor NewXDB ops) (ReceiptTableName @ ''.'' @ i) = None"
    if "i \<notin> fst ` set ops" for i
    using Data_insertAll_other [OF that, of oor NewXDB] by (simp add: NewXDB_def)
  from 1 2 show ?thesis by fastforce
qed

theorem getReceiptPoints_unknown_id_witness:
  "Data NewXDB (ReceiptTableName @ ''.'' @ ''b'') = None
   \<and> ''b'' \<notin> fst ` set [(''a'', exampleReceipt)]
   \<and> getReceiptPoints (insertAll (\<lambda>_. 0) NewXDB [(''a'', exampleReceipt)]) ''b''
       = Inl NoReceiptExists
   \<and> getReceiptPoints (insertAll (\<lambda>_. 0) NewXDB [(''a'', exampleReceipt)]) ''a''
       = Inr (computeReceiptPoints (\<lambda>_. 0) exampleReceipt)
   \<and> ''a'' \<in> fst ` set [(''a'', exampleReceipt)]"
proof -
  have "getReceiptPoints (insertAll (\<lambda>_. 0) NewXDB [(''a'', exampleReceipt)]) ''a''
       = Inr (computeReceiptPoints (\<lambda>_. 0) exampleReceipt)"
    by (simp add: getReceiptPoints_def Data_writeReceipt)
  then show ?thesis
    using getReceiptPoints_unknown_id
      [of NewXDB "''b''" "[(''a'', exampleReceipt)]" "\<lambda>_. 0" "''a''"
          "computeReceiptPoints (\<lambda>_. 0) exampleReceipt"]
    by (simp add: NewXDB_def)
qed

text \<open>
  \<^bold>\<open>C9\<close>. In every store built from the empty one by inserts, every value of the
  table is a ReceiptRow holding the score of its receipt, and a lookup on any key gives a
  point total or "No receipt with given ID exists", never
  "Receipt with given ID was malformed" (kind Corrupt).
\<close>

theorem reachable_store_never_Corrupt:
  "ran (Data (insertAll oor NewXDB ops)) \<subseteq> Collect (wellFormed oor)
   \<and> getReceiptPoints (insertAll oor NewXDB ops) k \<noteq> Inl ReceiptMalformed
   \<and> ((\<exists>p. getReceiptPoints (insertAll oor NewXDB ops) k = Inr p)
        \<or> getReceiptPoints (insertAll oor NewXDB ops) k = Inl NoReceiptExists)
   \<and> kind ReceiptMalformed = Corrupt"
proof -
  let ?db = "insertAll oor NewXDB ops"
  have inv: "ran (Data ?db) \<subseteq> Collect (wellFormed oor)"
    by (rule ran_insertAll) (simp add: NewXDB_def)
  have "\<exists>row. v = ReceiptRowValue row" if "Data ?db key = Some v" for key v
  proof -
    from that have "v \<in> ran (Data ?db)" by (auto simp: ran_def)
    with inv have "wellFormed oor v" by auto
    then show ?thesis by (cases v) (simp_all add: wellFormed_def)
  qed
  then have "(\<exists>p. getReceiptPoints ?db k = Inr p) \<or> getReceiptPoints ?db k = Inl NoReceiptExists"
    by (fastforce simp: getReceiptPoints_def split: option.splits any.splits)
  with inv show ?thesis by auto
qed

text \<open>The branch is live in the program: on a table that holds a value of another type
  the lookup does answer "Receipt with given ID was malformed".\<close>

lemma getReceiptPoints_other_value:
  "getReceiptPoints \<lparr>Data = [ReceiptTableName @ ''.'' @ k \<mapsto> OtherValue x]\<rparr> k
   = Inl ReceiptMalformed"
  by (simp add: getReceiptPoints_def)

section \<open>The validators\<close>

lemma isQuotedString_quote [simp]: "isQuotedString (quote s)"
  by (simp add: isQuotedString_def quote_def nth_append)

lemma obtainQuotedString_quote [simp]: "obtainQuotedString (quote s) = Inr s"
  by (simp add: obtainQuotedString_def) (simp add: quote_def)

lemma not_quoted:
  assumes "length d < 2 \<or> hd d \<noteq> CHR 0x22 \<or> last d \<noteq> CHR 0x22"
  shows "obtainQuotedString d = Inl FieldMustBeQuotedString"
proof -
  have "\<not> isQuotedString d"
  proof
    assume q: "isQuotedString d"
    then have "d \<noteq> []" by (auto simp: isQuotedString_def)
    with q have "hd d = CHR 0x22" "last d = CHR 0x22" "2 \<le> length d"
      by (simp_all add: isQuotedString_def hd_conv_nth last_conv_nth)
    with assms show False by auto
  qed
  then show ?thesis by (simp add: obtainQuotedString_def)
qed

text \<open>
  \<^bold>\<open>C7\<close>. A raw field value that is not a quoted string (shorter than two bytes, or
  not opening or not closing with a double quote) makes each of the five validators answer
  "Field must be a quoted string" (kind MalformedField), whatever its content: the pattern
  and the grammar of the field are not consulted.
\<close>

theorem unquoted_field_MalformedField:
  assumes "length d < 2 \<or> hd d \<noteq> CHR 0x22 \<or> last d \<noteq> CHR 0x22"
  shows "Retailer_UnmarshalJSON d = Inl FieldMustBeQuotedString
       \<and> Date_UnmarshalJSON d = Inl FieldMustBeQuotedString
       \<and> Time_UnmarshalJSON d = Inl FieldMustBeQuotedString
       \<and> Amount_UnmarshalJSON d = Inl FieldMustBeQuotedString
       \<and> Description_UnmarshalJSON d = Inl FieldMustBeQuotedString
       \<and> kind FieldMustBeQuotedString = MalformedField"
  using not_quoted [OF assms]
  by (simp add: Retailer_UnmarshalJSON_def Date_UnmarshalJSON_def Time_UnmarshalJSON_def
      Amount_UnmarshalJSON_def Description_UnmarshalJSON_def)

theorem unquoted_field_MalformedField_witness:
  "Retailer_UnmarshalJSON ''M@M'' = Inl FieldMustBeQuotedString
   \<and> Date_UnmarshalJSON ''M@M'' = Inl FieldMustBeQuotedString
   \<and> Amount_UnmarshalJSON ''M@M'' = Inl FieldMustBeQuotedString"
  using unquoted_field_MalformedField [of "''M@M''"] by simp

lemma not_digit_dot [simp]: "\<not> re_d (CHR ''.'')"
  by (simp add: re_d_def byte_def)

lemma amount_fraction:
  assumes fp: "list_all re_d fp" and len: "length fp \<noteq> 2"
  shows "\<not> twoDecimalFloatRegex_MatchString (ip @ CHR ''.'' # fp)"
proof
  let ?s = "ip @ CHR ''.'' # fp"
  assume m: "twoDecimalFloatRegex_MatchString ?s"
  let ?n = "length ?s"
  from m have dot: "?s ! (?n - 3) = CHR ''.''" and d2: "re_d (?s ! (?n - 2))"
    and d1: "re_d (?s ! (?n - 1))"
    by (simp_all add: twoDecimalFloatRegex_MatchString_def Let_def)
  consider "length fp = 0" | "length fp = 1" | "3 \<le> length fp" using len by linarith
  then show False
  proof cases
    case 1
    with d1 show ?thesis by (simp add: nth_append)
  next
    case 2
    with d2 show ?thesis by (simp add: nth_append)
  next
    case 3
    then obtain k where k: "length fp = k + 3"
      by (metis add.commute le_Suc_ex)
    then have "?s ! (?n - 3) = fp ! k"
      by (simp add: nth_append)
    moreover from k fp have "re_d (fp ! k)"
      by (simp add: list_all_length)
    ultimately show ?thesis using dot by simp
  qed
qed

lemma amount_no_point:
  assumes "list_all re_d s"
  shows "\<not> twoDecimalFloatRegex_MatchString s"
proof
  assume m: "twoDecimalFloatRegex_MatchString s"
  then have "4 \<le> length s" "s ! (length s - 3) = CHR ''.''"
    by (simp_all add: twoDecimalFloatRegex_MatchString_def Let_def)
  moreover from this assms have "re_d (s ! (length s - 3))"
    using list_all_length [of re_d s] by (auto dest: spec [of _ "length s - 3"])
  ultimately show False by simp
qed

lemma retailer_bad_char:
  assumes "c \<in> set s" and "\<not> (re_w c \<or> re_s c \<or> c = CHR ''&'' \<or> c = CHR ''-'')"
  shows "\<not> retailerRegex_MatchString s"
  using assms by (auto simp: retailerRegex_MatchString_def list_all_iff)

lemma date_form:
  assumes "time_Parse_date s = Some t"
  shows "isYYYYMMDD s"
proof -
  from assms have len: "length s = 10" and y: "list_all re_d (take 4 s)"
    and h1: "s ! 4 = CHR ''-''" and m: "list_all re_d (take 2 (drop 5 s))"
    and h2: "s ! 7 = CHR ''-''" and d: "list_all re_d (drop 8 s)"
    by (simp_all add: time_Parse_date_def split: if_splits)
  from y len have "re_d (s ! 0)" "re_d (s ! 1)" "re_d (s ! 2)" "re_d (s ! 3)"
    by (simp_all add: list_all_length)
  moreover from m len have "re_d (s ! 5)" "re_d (s ! 6)"
    using list_all_length [of re_d "take 2 (drop 5 s)"]
    by (auto dest: spec [of _ 0] spec [of _ 1])
  moreover from d len have "re_d (s ! 8)" "re_d (s ! 9)"
    using list_all_length [of re_d "drop 8 s"]
    by (auto dest: spec [of _ 0] spec [of _ 1])
  ultimately show ?thesis using len h1 h2 by (simp add: isYYYYMMDD_def)
qed

text \<open>
  \<^bold>\<open>C8\<close>. The validators refuse with an error of kind InvalidFormat: an amount
  whose digits after its last point are not exactly two, and one of digits with no point at
  all ("Invalid amount"); a retailer with a byte that is no letter, digit, underscore,
  whitespace, ampersand or hyphen ("Invalid retailer name"); a date that is not of the
  form YYYY-MM-DD ("Invalid date format"). The witness has the amount 3.5, a retailer with
  an at sign, and the date 01-01-2022.
\<close>

theorem validators_reject_InvalidFormat:
  "(list_all re_d fp \<and> length fp \<noteq> 2 \<longrightarrow>
      Amount_UnmarshalJSON (quote (ip @ CHR ''.'' # fp)) = Inl InvalidAmount)
   \<and> (list_all re_d n \<longrightarrow> Amount_UnmarshalJSON (quote n) = Inl InvalidAmount)
   \<and> (c \<in> set s \<and> \<not> (unicode_IsLetter c \<or> unicode_IsDigit c \<or> c = CHR ''_'' \<or> re_s c
                        \<or> c = CHR ''&'' \<or> c = CHR ''-'') \<longrightarrow>
      Retailer_UnmarshalJSON (quote s) = Inl InvalidRetailerName)
   \<and> (\<not> isYYYYMMDD t \<longrightarrow> Date_UnmarshalJSON (quote t) = Inl InvalidDateFormat)
   \<and> kind InvalidAmount = InvalidFormat \<and> kind InvalidRetailerName = InvalidFormat
   \<and> kind InvalidDateFormat = InvalidFormat"
proof -
  have a: "Amount_UnmarshalJSON (quote (ip @ CHR ''.'' # fp)) = Inl InvalidAmount"
    if "list_all re_d fp" "length fp \<noteq> 2"
    using amount_fraction [OF that] by (simp add: Amount_UnmarshalJSON_def)
  have a': "Amount_UnmarshalJSON (quote n) = Inl InvalidAmount" if "list_all re_d n"
    using amount_no_point [OF that] by (simp add: Amount_UnmarshalJSON_def)
  have w: "re_w c = (unicode_IsLetter c \<or> unicode_IsDigit c \<or> c = CHR ''_'')"
  proof -
    have "(byte c = 95) = (c = CHR ''_'')"
      by (cases c) (auto simp: byte_def)
    then show ?thesis
      by (auto simp: re_w_def re_d_def unicode_IsLetter_def unicode_IsDigit_def)
  qed
  have b: "Retailer_UnmarshalJSON (quote s) = Inl InvalidRetailerName"
    if "c \<in> set s" "\<not> (unicode_IsLetter c \<or> unicode_IsDigit c \<or> c = CHR ''_'' \<or> re_s c
                        \<or> c = CHR ''&'' \<or> c = CHR ''-'')"
    using retailer_bad_char [of c s] that w by (simp add: Retailer_UnmarshalJSON_def)
  have d: "Date_UnmarshalJSON (quote t) = Inl InvalidDateFormat" if "\<not> isYYYYMMDD t"
    using date_form [of t] that
    by (cases "time_Parse_date t") (simp_all add: Date_UnmarshalJSON_def)
  from a a' b d show ?thesis by simp
qed

theorem validators_reject_witness:
  "Amount_UnmarshalJSON (quote ''3.5'') = Inl InvalidAmount
   \<and> Amount_UnmarshalJSON (quote ''35'') = Inl InvalidAmount
   \<and> Retailer_UnmarshalJSON (quote ''M@M'') = Inl InvalidRetailerName
   \<and> Date_UnmarshalJSON (quote ''01-01-2022'') = Inl InvalidDateFormat"
proof -
  have 1: "list_all re_d ''5'' \<and> length ''5'' \<noteq> 2" and 4: "list_all re_d ''35''"
    by (simp_all add: re_d_def byte_def)
  have 2: "CHR ''@'' \<in> set ''M@M'' \<and> \<not> (unicode_IsLetter (CHR ''@'') \<or> unicode_IsDigit (CHR ''@'')
            \<or> CHR ''@'' = CHR ''_'' \<or> re_s (CHR ''@'') \<or> CHR ''@'' = CHR ''&'' \<or> CHR ''@'' = CHR ''-'')"
    by (simp add: unicode_IsLetter_def unicode_IsDigit_def re_s_def byte_def)
  have 3: "\<not> isYYYYMMDD ''01-01-2022''"
    by (simp add: isYYYYMMDD_def re_d_def byte_def)
  from 1 2 3 4 show ?thesis
    using validators_reject_InvalidFormat
      [where fp = "''5''" and ip = "''3''" and n = "''35''" and c = "CHR ''@''"
         and s = "''M@M''" and t = "''01-01-2022''"]
    by simp
qed

section \<open>The scoring rules\<close>

lemma roundHalfEven_nonneg: "0 \<le> x \<Longrightarrow> 0 \<le> roundHalfEven x"
  by (auto simp: roundHalfEven_def Let_def)

lemma round64_nonneg: "0 \<le> q \<Longrightarrow> 0 \<le> round64 q"
proof (cases "q = 0")
  case True
  then show ?thesis by (simp add: round64_def)
next
  case False
  assume "0 \<le> q"
  with False have q: "0 < q" by simp
  let ?u = "pow2 (max (ilog2 \<bar>q\<bar>) (- 1022) - 52)"
  from q pow2_pos [of "max (ilog2 \<bar>q\<bar>) (- 1022) - 52"] have "0 \<le> \<bar>q\<bar> / ?u" by simp
  then have "0 \<le> roundHalfEven (\<bar>q\<bar> / ?u)" by (rule roundHalfEven_nonneg)
  then have "0 \<le> (of_int (roundHalfEven (\<bar>q\<bar> / ?u)) :: rat) * ?u"
    using pow2_pos [of "max (ilog2 \<bar>q\<bar>) (- 1022) - 52"] by simp
  with q False show ?thesis by (simp add: round64_def Let_def)
qed

lemma f64_mul_nonneg: "0 \<le> x \<Longrightarrow> 0 \<le> y \<Longrightarrow> 0 \<le> f64_mul x y"
  by (simp add: f64_mul_def round64_nonneg)

lemma digitsVal_nonneg_aux:
  "list_all re_d s \<Longrightarrow> 0 \<le> a \<Longrightarrow> 0 \<le> foldl (\<lambda>a c. 10 * a + (byte c - 48)) a s"
  by (induction s arbitrary: a) (simp_all add: re_d_def)

lemma digitsVal_nonneg: "list_all re_d s \<Longrightarrow> 0 \<le> digitsVal s"
  by (simp add: digitsVal_def digitsVal_nonneg_aux)

lemma ParseFloat_nonneg:
  assumes "strconv_ParseFloat s = Some v"
  shows "0 \<le> v"
proof -
  let ?ip = "takeWhile re_d s"
  let ?rest = "dropWhile re_d s"
  let ?fp = "if ?rest = [] then [] else tl ?rest"
  from assms have fp: "list_all re_d ?fp"
    and v: "v = round64 (of_int (digitsVal (?ip @ ?fp)) / 10 ^ length ?fp)"
    by (auto simp: strconv_ParseFloat_def Let_def split: if_splits)
  have "list_all re_d ?ip" by (simp add: list_all_iff) (meson set_takeWhileD)
  with fp have "0 \<le> digitsVal (?ip @ ?fp)" by (intro digitsVal_nonneg) simp
  then have "0 \<le> (of_int (digitsVal (?ip @ ?fp)) :: rat) / 10 ^ length ?fp" by simp
  with v show ?thesis using round64_nonneg by blast
qed

lemma Amount_nonneg: "Amount_UnmarshalJSON d = Inr a \<Longrightarrow> 0 \<le> a"
  by (auto simp: Amount_UnmarshalJSON_def ParseFloat_nonneg
      split: sum.splits if_splits option.splits)

lemma valid_Item_price: "valid_Item item \<Longrightarrow> 0 \<le> Price item"
  by (auto simp: valid_Item_def Amount_nonneg)

lemma itemPointsInt_nonneg: "0 \<le> Price item \<Longrightarrow> 0 \<le> itemPointsInt item"
proof -
  assume "0 \<le> Price item"
  moreover have "0 \<le> round64 (1 / 5)" by (rule round64_nonneg) simp
  ultimately have "0 \<le> f64_mul (Price item) (round64 (1 / 5))" by (rule f64_mul_nonneg)
  then have "0 \<le> \<lceil>f64_mul (Price item) (round64 (1 / 5))\<rceil>" by simp
  then show ?thesis by (simp add: itemPointsInt_def)
qed

lemma int64_of_Ceil:
  assumes "- (2 ^ 63) \<le> \<lceil>x\<rceil>" and "\<lceil>x\<rceil> < 2 ^ 63"
  shows "int64_of_float64 oor (math_Ceil x) = word_of_int \<lceil>x\<rceil>"
proof -
  have "toward_zero (of_int \<lceil>x\<rceil>) = \<lceil>x\<rceil>" by (simp add: toward_zero_def)
  with assms show ?thesis by (simp add: int64_of_float64_def math_Ceil_def Let_def)
qed

lemma alphanumeric_fold:
  "fold (\<lambda>char points. if P char then points + 1 else points) s (acc :: int64)
   = acc + word_of_nat (length (filter P s))"
  by (induction s arbitrary: acc) simp_all

lemma alphanumericRetailerPoints_count:
  "alphanumericRetailerPoints r =
   word_of_nat (length (filter (\<lambda>c. unicode_IsLetter c \<or> unicode_IsDigit c) (Retailer r)))"
  by (simp add: alphanumericRetailerPoints_def alphanumeric_fold)

lemma items_fold:
  "fold (\<lambda>item points.
           let trimmedDescription = strings_TrimSpace (Description item)
           in if length trimmedDescription mod 3 = 0
              then points
                   + int64_of_float64 oor (math_Ceil (f64_mul (Price item) (round64 (1 / 5))))
              else points) items acc
   = acc + sum_list (map (itemPoints oor) items)"
  by (induction items arbitrary: acc) (simp_all add: itemPoints_def Let_def)

lemma itemDescriptionLengthsPoints_sum:
  "itemDescriptionLengthsPoints oor r = sum_list (map (itemPoints oor) (Items r))"
  using items_fold [of oor "Items r" 0] by (simp add: itemDescriptionLengthsPoints_def)

lemma itemPoints_exact:
  assumes "0 \<le> itemPointsInt item" and "itemPointsInt item < 2 ^ 63"
  shows "itemPoints oor item = word_of_int (itemPointsInt item)"
proof (cases "length (strings_TrimSpace (Description item)) mod 3 = 0")
  case True
  with assms have "- (2 ^ 63) \<le> \<lceil>f64_mul (Price item) (round64 (1 / 5))\<rceil>"
    and "\<lceil>f64_mul (Price item) (round64 (1 / 5))\<rceil> < 2 ^ 63"
    by (simp_all add: itemPointsInt_def)
  then show ?thesis using True
    by (simp add: itemPoints_def itemPointsInt_def int64_of_Ceil)
next
  case False
  then show ?thesis by (simp add: itemPoints_def itemPointsInt_def)
qed

lemma sum_list_itemPoints:
  assumes "list_all (\<lambda>item. 0 \<le> Price item) items"
    and "(\<Sum>item\<leftarrow>items. itemPointsInt item) < 2 ^ 63"
  shows "sum_list (map (itemPoints oor) items) = word_of_int (\<Sum>item\<leftarrow>items. itemPointsInt item)"
  using assms
proof (induction items)
  case Nil
  then show ?case by simp
next
  case (Cons item items)
  from Cons.prems have p: "0 \<le> Price item" and ps: "list_all (\<lambda>item. 0 \<le> Price item) items"
    by simp_all
  have nn: "0 \<le> itemPointsInt item" using p by (rule itemPointsInt_nonneg)
  have nns: "0 \<le> (\<Sum>item\<leftarrow>items. itemPointsInt item)"
    using ps by (intro sum_list_nonneg) (auto simp: list_all_iff itemPointsInt_nonneg)
  from Cons.prems(2) nn nns have lt: "itemPointsInt item < 2 ^ 63"
    and lts: "(\<Sum>item\<leftarrow>items. itemPointsInt item) < 2 ^ 63" by simp_all
  from Cons.IH [OF ps lts] itemPoints_exact [OF nn lt, of oor] show ?case by simp
qed

lemma specScore_parts_nonneg:
  assumes "list_all (\<lambda>item. 0 \<le> Price item) (Items r)"
  shows "0 \<le> (\<Sum>item\<leftarrow>Items r. itemPointsInt item)"
  using assms by (intro sum_list_nonneg) (auto simp: list_all_iff itemPointsInt_nonneg)

lemma computeReceiptPoints_exact:
  assumes prices: "list_all (\<lambda>item. 0 \<le> Price item) (Items r)"
    and bound: "specScore r < 2 ^ 63"
  shows "computeReceiptPoints oor r = word_of_int (specScore r)" and "0 \<le> specScore r"
proof -
  let ?S = "\<Sum>item\<leftarrow>Items r. itemPointsInt item"
  have S0: "0 \<le> ?S" using prices by (rule specScore_parts_nonneg)
  show nn: "0 \<le> specScore r" using S0 by (simp add: specScore_def)
  have "?S \<le> specScore r" by (simp add: specScore_def)
  with bound have "?S < 2 ^ 63" by simp
  then have items: "itemDescriptionLengthsPoints oor r = word_of_int ?S"
    using sum_list_itemPoints [OF prices] by (simp add: itemDescriptionLengthsPoints_sum)
  have round: "totalRoundDollarAmountPoints r = word_of_int (if Total r = of_int \<lfloor>Total r\<rfloor> then 50 else 0)"
  proof -
    have "(Total r = math_Trunc (Total r)) = (Total r = of_int \<lfloor>Total r\<rfloor>)"
      unfolding math_Trunc_def toward_zero_def
      by (metis floor_of_int ceiling_of_int)
    then show ?thesis by (simp add: totalRoundDollarAmountPoints_def)
  qed
  have quarter: "totalMultipleOf25CentsPoints r
      = word_of_int (if \<bar>math_Mod (Total r) (1 / 4)\<bar> < round64 (1 / 10000) then 25 else 0)"
    by (simp add: totalMultipleOf25CentsPoints_def math_Abs_def)
  have pairs: "every2ItemsPoints r = word_of_int (5 * int (length (Items r) div 2))"
    by (simp add: every2ItemsPoints_def)
  have odd: "purchaseDayOddPoints r = word_of_int (if odd (Day (PurchaseDate r)) then 6 else 0)"
    by (simp add: purchaseDayOddPoints_def odd_iff_mod_2_eq_one)
  have aft: "purchaseTimeBetween2And4Points r
      = word_of_int (if 14 \<le> Hour (PurchaseTime r) \<and> Hour (PurchaseTime r) < 16 then 10 else 0)"
    by (simp add: purchaseTimeBetween2And4Points_def Let_def)
  have alnum: "alphanumericRetailerPoints r = word_of_int
      (int (length (filter (\<lambda>c. unicode_IsLetter c \<or> unicode_IsDigit c) (Retailer r))))"
    by (simp add: alphanumericRetailerPoints_count)
  show "computeReceiptPoints oor r = word_of_int (specScore r)"
    unfolding computeReceiptPoints_def specScore_def alnum round quarter pairs items odd aft
    by (simp only: of_int_add)
qed

lemma sint_word_of_int_64:
  "0 \<le> k \<Longrightarrow> k < 2 ^ 63 \<Longrightarrow> sint (word_of_int k :: int64) = k"
  by (simp add: sint_sbintrunc' signed_take_bit_int_eq_self)

text \<open>
  \<^bold>\<open>C2\<close>, amended. The score is a function of the receipt (total and deterministic),
  and it is the sum of the seven rule contributions in int64 arithmetic, which wraps around.
  For a validly-constructed receipt whose exact score \<open>specScore\<close>, the sum of the seven
  contributions as integers, is below \<open>2\<^sup>6\<^sup>3\<close>, the score read as a signed
  integer is that exact sum and is not negative.
\<close>

theorem computeReceiptPoints_sum_and_sign:
  "computeReceiptPoints oor r =
     alphanumericRetailerPoints r + totalRoundDollarAmountPoints r
     + totalMultipleOf25CentsPoints r + every2ItemsPoints r
     + itemDescriptionLengthsPoints oor r + purchaseDayOddPoints r
     + purchaseTimeBetween2And4Points r
   \<and> (valid_Receipt r \<and> specScore r < 2 ^ 63 \<longrightarrow>
        sint (computeReceiptPoints oor r) = specScore r \<and> 0 \<le> sint (computeReceiptPoints oor r))"
proof -
  have "sint (computeReceiptPoints oor r) = specScore r \<and> 0 \<le> sint (computeReceiptPoints oor r)"
    if v: "valid_Receipt r" and b: "specScore r < 2 ^ 63"
  proof -
    from v have prices: "list_all (\<lambda>item. 0 \<le> Price item) (Items r)"
      by (auto simp: valid_Receipt_def list_all_iff valid_Item_price)
    from computeReceiptPoints_exact(1) [OF prices b, of oor]
      computeReceiptPoints_exact(2) [OF prices b] b
    show ?thesis by (simp add: sint_word_of_int_64)
  qed
  moreover have "computeReceiptPoints oor r =
     alphanumericRetailerPoints r + totalRoundDollarAmountPoints r
     + totalMultipleOf25CentsPoints r + every2ItemsPoints r
     + itemDescriptionLengthsPoints oor r + purchaseDayOddPoints r
     + purchaseTimeBetween2And4Points r"
    by (simp add: computeReceiptPoints_def)
  ultimately show ?thesis by blast
qed

lemma parse_Target: "Retailer_UnmarshalJSON (quote ''Target'') = Inr ''Target''"
  by code_simp
lemma parse_A: "Retailer_UnmarshalJSON (quote ''A'') = Inr ''A''"
  by code_simp
lemma parse_date1: "Date_UnmarshalJSON (quote ''2022-01-01'')
    = Inr \<lparr>Year = 2022, Month = 1, Day = 1, Hour = 0, Minute = 0\<rparr>"
  by code_simp
lemma parse_date2: "Date_UnmarshalJSON (quote ''2022-01-02'')
    = Inr \<lparr>Year = 2022, Month = 1, Day = 2, Hour = 0, Minute = 0\<rparr>"
  by code_simp
lemma parse_time: "Time_UnmarshalJSON (quote ''13:01'')
    = Inr \<lparr>Year = 0, Month = 1, Day = 1, Hour = 13, Minute = 1\<rparr>"
  by code_simp
lemma parse_649: "Amount_UnmarshalJSON (quote ''6.49'') = Inr (round64 (649 / 100))"
  by code_simp
lemma parse_1225: "Amount_UnmarshalJSON (quote ''12.25'') = Inr (49 / 4)"
  by code_simp
lemma parse_3535: "Amount_UnmarshalJSON (quote ''35.35'') = Inr (round64 (3535 / 100))"
  by code_simp
lemma parse_4e19: "Amount_UnmarshalJSON (quote ''40000000000000000000.00'') = Inr 40000000000000000000"
  by code_simp
lemma parse_8e19: "Amount_UnmarshalJSON (quote ''80000000000000000000.00'') = Inr 80000000000000000000"
  by code_simp
lemma parse_desc1: "Description_UnmarshalJSON (quote ''Mountain Dew 12PK'') = Inr ''Mountain Dew 12PK''"
  by code_simp
lemma parse_desc2: "Description_UnmarshalJSON (quote ''Emils Cheese Pizza'') = Inr ''Emils Cheese Pizza''"
  by code_simp
lemma parse_abc: "Description_UnmarshalJSON (quote ''abc'') = Inr ''abc''"
  by code_simp

lemma valid_exampleReceipt: "valid_Receipt exampleReceipt"
  unfolding valid_Receipt_def valid_Item_def exampleReceipt_def
  using parse_Target parse_date1 parse_time parse_649 parse_1225 parse_3535 parse_desc1 parse_desc2
  by auto

lemma valid_overflowReceipt: "valid_Receipt overflowReceipt"
  unfolding valid_Receipt_def valid_Item_def overflowReceipt_def
  using parse_A parse_date2 parse_time parse_4e19 parse_8e19 parse_abc
  by auto

lemma score_overflow: "computeReceiptPoints oor overflowReceipt = word_of_int (- 2446744073709551535)"
  by code_simp

lemma specScore_example: "specScore exampleReceipt = 20"
  by code_simp

lemma score_example: "computeReceiptPoints oor exampleReceipt = 20"
  by code_simp

theorem computeReceiptPoints_sum_and_sign_witness:
  "valid_Receipt exampleReceipt \<and> specScore exampleReceipt < 2 ^ 63
   \<and> sint (computeReceiptPoints (\<lambda>_. 0) exampleReceipt) = 20
   \<and> 0 \<le> sint (computeReceiptPoints (\<lambda>_. 0) exampleReceipt)"
  using computeReceiptPoints_sum_and_sign [of "\<lambda>_. 0" exampleReceipt, THEN conjunct2]
    valid_exampleReceipt specScore_example
  by simp

text \<open>
  \<^bold>\<open>C2\<close>. The claim as written fails: the receipt \<open>overflowReceipt\<close>, every field of which is
  the result of its validator, has two items of price 40000000000000000000.00 with a
  description of three letters. Each adds 8000000000000000000, which fits an int64; their
  sum does not, and the score is negative. No conversion is out of range here, so the
  parameter \<open>oor\<close> plays no part.
\<close>

theorem computeReceiptPoints_negative:
  "Retailer_UnmarshalJSON (quote ''A'') = Inr (Retailer overflowReceipt)
   \<and> Date_UnmarshalJSON (quote ''2022-01-02'') = Inr (PurchaseDate overflowReceipt)
   \<and> Time_UnmarshalJSON (quote ''13:01'') = Inr (PurchaseTime overflowReceipt)
   \<and> Description_UnmarshalJSON (quote ''abc'') = Inr ''abc''
   \<and> Amount_UnmarshalJSON (quote ''40000000000000000000.00'') = Inr 40000000000000000000
   \<and> Items overflowReceipt = [\<lparr>Description = ''abc'', Price = 40000000000000000000\<rparr>,
                              \<lparr>Description = ''abc'', Price = 40000000000000000000\<rparr>]
   \<and> Amount_UnmarshalJSON (quote ''80000000000000000000.00'') = Inr (Total overflowReceipt)
   \<and> valid_Receipt overflowReceipt
   \<and> sint (computeReceiptPoints (\<lambda>_. 0) overflowReceipt) = - 2446744073709551535
   \<and> sint (computeReceiptPoints (\<lambda>_. 0) overflowReceipt) < 0"
proof -
  have "sint (word_of_int (- 2446744073709551535) :: int64) = - 2446744073709551535"
    by simp
  then show ?thesis
    using parse_A parse_date2 parse_time parse_abc parse_4e19 parse_8e19 valid_overflowReceipt
      score_overflow [of "\<lambda>_. 0"]
    by (simp add: overflowReceipt_def)
qed

lemma byte_eq_iff: "(byte c = byte c') = (c = c')"
  by (simp add: byte_def)

lemma byte_values [simp]:
  "byte (CHR ''_'') = 95" "byte (CHR ''&'') = 38" "byte (CHR ''-'') = 45"
  by (simp_all add: byte_def)

lemma re_w_iff: "re_w c = (unicode_IsLetter c \<or> unicode_IsDigit c \<or> c = CHR ''_'')"
proof -
  have "(byte c = 95) = (c = CHR ''_'')"
    using byte_eq_iff [of c "CHR ''_''"] by simp
  then show ?thesis
    by (auto simp: re_w_def re_d_def unicode_IsLetter_def unicode_IsDigit_def)
qed

lemma alnum_iff_not_punct:
  assumes "re_w c \<or> re_s c \<or> c = CHR ''&'' \<or> c = CHR ''-''"
  shows "(unicode_IsLetter c \<or> unicode_IsDigit c)
         = (\<not> (c = CHR ''_'' \<or> re_s c \<or> c = CHR ''&'' \<or> c = CHR ''-''))"
proof -
  have "\<not> (unicode_IsLetter c \<or> unicode_IsDigit c)"
    if "c = CHR ''_'' \<or> re_s c \<or> c = CHR ''&'' \<or> c = CHR ''-''"
    using that by (auto simp: unicode_IsLetter_def unicode_IsDigit_def re_s_def)
  with assms show ?thesis by (auto simp: re_w_iff)
qed

lemma Retailer_chars:
  assumes "Retailer_UnmarshalJSON d = Inr s"
  shows "list_all (\<lambda>c. re_w c \<or> re_s c \<or> c = CHR ''&'' \<or> c = CHR ''-'') s"
  using assms
  by (auto simp: Retailer_UnmarshalJSON_def retailerRegex_MatchString_def
      split: sum.splits if_splits)

text \<open>The strings that the validators let through are ASCII, as the conventions of the
  embedding assume.\<close>

lemma class_ascii:
  "re_w c \<or> re_s c \<or> c = CHR ''&'' \<or> c = CHR ''-'' \<Longrightarrow> byte c < 128"
  by (auto simp: re_w_def re_d_def re_s_def)

lemma Retailer_ascii:
  assumes "Retailer_UnmarshalJSON d = Inr s"
  shows "list_all (\<lambda>c. byte c < 128) s"
  using Retailer_chars [OF assms] by (auto simp: list_all_iff intro: class_ascii)

lemma Description_ascii:
  assumes "Description_UnmarshalJSON d = Inr s"
  shows "list_all (\<lambda>c. byte c < 128) s"
proof -
  from assms have "list_all (\<lambda>c. re_w c \<or> re_s c \<or> c = CHR ''-'') s"
    by (auto simp: Description_UnmarshalJSON_def descriptionRegex_MatchString_def
        split: sum.splits if_splits)
  then show ?thesis by (auto simp: list_all_iff intro: class_ascii)
qed

lemma score_MM: "alphanumericRetailerPoints (r\<lparr>Retailer := ''M&M Corner Market''\<rparr>) = 14"
proof -
  have "length (filter (\<lambda>c. unicode_IsLetter c \<or> unicode_IsDigit c) ''M&M Corner Market'') = 14"
    by code_simp
  then show ?thesis by (simp add: alphanumericRetailerPoints_count)
qed

lemma parse_MM:
  "Retailer_UnmarshalJSON (quote ''M&M Corner Market'') = Inr ''M&M Corner Market''"
  by code_simp

text \<open>
  \<^bold>\<open>C3\<close>. The claim gives 15 for the retailer "M&M Corner Market". The name has 14
  letters and no digit (M, M, Corner, Market), and the rule gives 14.
\<close>

theorem alphanumericRetailerPoints_MM_not_15:
  "Retailer_UnmarshalJSON (quote ''M&M Corner Market'') = Inr ''M&M Corner Market''
   \<and> alphanumericRetailerPoints (exampleReceipt\<lparr>Retailer := ''M&M Corner Market''\<rparr>) \<noteq> 15"
  using parse_MM score_MM [of exampleReceipt] by simp

text \<open>
  \<^bold>\<open>C3\<close>, amended. The rule gives one point per letter or digit of the retailer
  name; for a name that passed the validator these are the characters other than underscore,
  whitespace, ampersand and hyphen. For "M&M Corner Market" it gives 14.
\<close>

theorem alphanumericRetailerPoints_letters_digits:
  "alphanumericRetailerPoints r =
     word_of_nat (length (filter (\<lambda>c. unicode_IsLetter c \<or> unicode_IsDigit c) (Retailer r)))
   \<and> (Retailer_UnmarshalJSON d = Inr (Retailer r) \<longrightarrow>
        alphanumericRetailerPoints r =
          word_of_nat (length (filter
            (\<lambda>c. \<not> (c = CHR ''_'' \<or> re_s c \<or> c = CHR ''&'' \<or> c = CHR ''-'')) (Retailer r))))
   \<and> alphanumericRetailerPoints (r\<lparr>Retailer := ''M&M Corner Market''\<rparr>) = 14"
proof -
  have "filter (\<lambda>c. unicode_IsLetter c \<or> unicode_IsDigit c) (Retailer r)
      = filter (\<lambda>c. \<not> (c = CHR ''_'' \<or> re_s c \<or> c = CHR ''&'' \<or> c = CHR ''-'')) (Retailer r)"
    if "Retailer_UnmarshalJSON d = Inr (Retailer r)"
    using Retailer_chars [OF that]
    by (intro filter_cong refl alnum_iff_not_punct) (simp add: list_all_iff)
  then show ?thesis
    using score_MM [of r] by (simp add: alphanumericRetailerPoints_count)
qed

theorem alphanumericRetailerPoints_letters_digits_witness:
  "Retailer_UnmarshalJSON (quote ''M&M Corner Market'')
     = Inr (Retailer (exampleReceipt\<lparr>Retailer := ''M&M Corner Market''\<rparr>))
   \<and> alphanumericRetailerPoints (exampleReceipt\<lparr>Retailer := ''M&M Corner Market''\<rparr>) =
       word_of_nat (length (filter
         (\<lambda>c. \<not> (c = CHR ''_'' \<or> re_s c \<or> c = CHR ''&'' \<or> c = CHR ''-''))
         (Retailer (exampleReceipt\<lparr>Retailer := ''M&M Corner Market''\<rparr>))))
   \<and> alphanumericRetailerPoints (exampleReceipt\<lparr>Retailer := ''M&M Corner Market''\<rparr>) = 14"
proof -
  have h: "Retailer_UnmarshalJSON (quote ''M&M Corner Market'')
     = Inr (Retailer (exampleReceipt\<lparr>Retailer := ''M&M Corner Market''\<rparr>))"
    using parse_MM by simp
  from h alphanumericRetailerPoints_letters_digits [of "exampleReceipt\<lparr>Retailer := ''M&M Corner Market''\<rparr>"
        "quote ''M&M Corner Market''"] alphanumericRetailerPoints_letters_digits [of exampleReceipt]
  show ?thesis by blast
qed

lemma quarter_update:
  "totalMultipleOf25CentsPoints (r\<lparr>Total := a\<rparr>)
   = (if \<bar>math_Mod a (1 / 4)\<bar> < round64 (1 / 10000) then 25 else 0)"
  by (simp add: totalMultipleOf25CentsPoints_def math_Abs_def)

lemma tolerance: "round64 (1 / 10000) = 7378697629483821 / 73786976294838206464"
  by code_simp

lemma parse_2525: "Amount_UnmarshalJSON (quote ''25.25'') = Inr (101 / 4)"
  by code_simp

lemma parse_2526:
  "Amount_UnmarshalJSON (quote ''25.26'') = Inr (7110057911711171 / 281474976710656)"
  by code_simp

lemma mod_2525: "\<bar>math_Mod (101 / 4) (1 / 4)\<bar> < round64 (1 / 10000)"
  by code_simp

lemma mod_2526:
  "\<not> \<bar>math_Mod (7110057911711171 / 281474976710656) (1 / 4)\<bar> < round64 (1 / 10000)"
  by code_simp

text \<open>
  \<^bold>\<open>C4\<close>. The rule gives 25 exactly when the absolute value of the remainder of the
  total by 0.25 is below the double nearest to 0.0001, and 0 otherwise. The amount parsed
  from "25.25" is 25.25 itself, with remainder 0, and gets 25; the amount parsed from
  "25.26" is the double \<open>7110057911711171 / 2\<^sup>4\<^sup>8\<close>, with a remainder just above 0.01, and
  gets 0.
\<close>

theorem totalMultipleOf25CentsPoints_tolerance:
  "totalMultipleOf25CentsPoints r
     = (if \<bar>math_Mod (Total r) (1 / 4)\<bar> < round64 (1 / 10000) then 25 else 0)
   \<and> round64 (1 / 10000) = 7378697629483821 / 73786976294838206464
   \<and> (\<exists>a. Amount_UnmarshalJSON (quote ''25.25'') = Inr a
          \<and> totalMultipleOf25CentsPoints (r\<lparr>Total := a\<rparr>) = 25)
   \<and> (\<exists>a. Amount_UnmarshalJSON (quote ''25.26'') = Inr a
          \<and> totalMultipleOf25CentsPoints (r\<lparr>Total := a\<rparr>) = 0)"
proof -
  have "totalMultipleOf25CentsPoints (r\<lparr>Total := 101 / 4\<rparr>) = 25"
    using mod_2525 by (simp only: quarter_update if_True)
  moreover have
    "totalMultipleOf25CentsPoints (r\<lparr>Total := 7110057911711171 / 281474976710656\<rparr>) = 0"
    using mod_2526 by (simp only: quarter_update if_False)
  moreover have "totalMultipleOf25CentsPoints r
     = (if \<bar>math_Mod (Total r) (1 / 4)\<bar> < round64 (1 / 10000) then 25 else 0)"
    by (simp add: totalMultipleOf25CentsPoints_def math_Abs_def)
  ultimately show ?thesis
    using parse_2525 parse_2526 tolerance by blast
qed
























end
